theory Spec2Isabelle
  imports Main "HOL-Library.Word" "HOL-Library.Signed_Division"
begin

unbundle bit_operations_syntax

section \<open>Outcomes of an operation\<close>

text \<open>
  An operation of the numeric types either returns a value, or stops the program through
  \<open>::sus::check\<close> (\<open>Panic\<close>), or executes an operation for which C++ defines no
  behaviour (\<open>Undefined\<close>: signed arithmetic whose result does not fit the type it is
  computed in, division by zero, a machine shift by the width or more).
\<close>

datatype error = Panic | Undefined

text \<open>\<open>::sus::check(c)\<close> followed by the rest of the function body.\<close>

definition check :: "bool \<Rightarrow> (error + 'b) \<Rightarrow> error + 'b" where
  "check c rest = (if c then rest else Inl Panic)"

section \<open>The primitive signed integers\<close>

text \<open>
  A value of \<open>primitive_type\<close> (\<open>int8_t\<close> ... \<open>int64_t\<close>) is a word of that width read
  by \<open>sint\<close>; the matching \<open>UnsignedT\<close> is the same word read by \<open>unat\<close>, so that
  \<open>static_cast\<close> between the two keeps the bits.

  C++ computes \<open>+\<close>, \<open>-\<close>, \<open>/\<close>, \<open>%\<close> and unary \<open>-\<close> on operands narrower than
  \<open>int\<close> in \<open>int\<close> (32 bits), and on wider operands in their own type. The result is a
  value of that computing type, here an \<open>int\<close>, and the behaviour is undefined when the
  mathematical result does not fit it.
\<close>

definition promoted_bits :: "'a::len word \<Rightarrow> nat" where
  "promoted_bits a = max 32 (size a)"

definition arith_result :: "nat \<Rightarrow> int \<Rightarrow> error + int" where
  "arith_result P r = (if - (2 ^ (P - 1)) \<le> r \<and> r < 2 ^ (P - 1) then Inr r else Inl Undefined)"

definition prim_add :: "nat \<Rightarrow> int \<Rightarrow> int \<Rightarrow> error + int" where
  "prim_add P x y = arith_result P (x + y)"

definition prim_sub :: "nat \<Rightarrow> int \<Rightarrow> int \<Rightarrow> error + int" where
  "prim_sub P x y = arith_result P (x - y)"

definition prim_neg :: "nat \<Rightarrow> int \<Rightarrow> error + int" where
  "prim_neg P x = arith_result P (- x)"

text \<open>C++ division truncates towards zero, and the remainder has the sign of the dividend.\<close>

definition prim_div :: "nat \<Rightarrow> int \<Rightarrow> int \<Rightarrow> error + int" where
  "prim_div P x y = (if y = 0 then Inl Undefined else arith_result P (x sdiv y))"

definition prim_rem :: "nat \<Rightarrow> int \<Rightarrow> int \<Rightarrow> error + int" where
  "prim_rem P x y =
     (if y = 0 then Inl Undefined
      else case arith_result P (x sdiv y) of
             Inl e \<Rightarrow> Inl e
           | Inr q \<Rightarrow> Inr (x smod y))"

text \<open>
  The conversion of a computed value to \<open>primitive_type\<close> or \<open>UnsignedT\<close>
  (\<open>static_cast\<close>, or the implicit conversion of a \<open>return\<close>) keeps the low bits.
\<close>

definition narrow :: "error + int \<Rightarrow> error + 'a::len word" where
  "narrow r = (case r of Inl e \<Rightarrow> Inl e | Inr v \<Rightarrow> Inr (word_of_int v))"

text \<open>
  \<open>MIN_PRIMITIVE\<close>, \<open>MAX_PRIMITIVE\<close> and \<open>BITS\<close> of \<open>_sus__signed_constants\<close>. The helpers
  \<open>min_value\<close>, \<open>max_value\<close> and \<open>num_bits\<close> they call are not among the sources; they
  are the least and the greatest value of the type and its width.
\<close>

definition MIN_PRIMITIVE :: "'a::len word" where
  "MIN_PRIMITIVE = - (2 ^ (LENGTH('a) - 1))"

definition MAX_PRIMITIVE :: "'a::len word" where
  "MAX_PRIMITIVE = 2 ^ (LENGTH('a) - 1) - 1"

definition BITS :: "'a::len word \<Rightarrow> nat" where
  "BITS a = size a"

section \<open>Negation\<close>

text \<open>\<open>operator-\<close> of \<open>_sus__signed_unary_ops\<close>.\<close>

definition op_neg :: "'a::len word \<Rightarrow> error + 'a word" where
  "op_neg a = check (a \<noteq> MIN_PRIMITIVE) (narrow (prim_neg (promoted_bits a) (sint a)))"

text \<open>The methods of \<open>_sus__signed_neg\<close>.\<close>

definition some_of :: "error + 'a \<Rightarrow> error + 'a option" where
  "some_of r = (case r of Inl e \<Rightarrow> Inl e | Inr v \<Rightarrow> Inr (Some v))"

definition checked_neg :: "'a::len word \<Rightarrow> error + 'a word option" where
  "checked_neg a =
     (if a \<noteq> MIN_PRIMITIVE then some_of (narrow (prim_neg (promoted_bits a) (sint a)))
      else Inr None)"

definition pair_with :: "error + 'a \<Rightarrow> bool \<Rightarrow> error + ('a \<times> bool)" where
  "pair_with r b = (case r of Inl e \<Rightarrow> Inl e | Inr v \<Rightarrow> Inr (v, b))"

definition overflowing_neg :: "'a::len word \<Rightarrow> error + ('a word \<times> bool)" where
  "overflowing_neg a =
     (if a \<noteq> MIN_PRIMITIVE then pair_with (narrow (prim_neg (promoted_bits a) (sint a))) False
      else Inr (MIN_PRIMITIVE, True))"

definition saturating_neg :: "'a::len word \<Rightarrow> error + 'a word" where
  "saturating_neg a =
     (if a \<noteq> MIN_PRIMITIVE then narrow (prim_neg (promoted_bits a) (sint a))
      else Inr MAX_PRIMITIVE)"

definition wrapping_neg :: "'a::len word \<Rightarrow> error + 'a word" where
  "wrapping_neg a =
     (if a \<noteq> MIN_PRIMITIVE then narrow (prim_neg (promoted_bits a) (sint a))
      else Inr MIN_PRIMITIVE)"

section \<open>Division and remainder\<close>

text \<open>\<open>operator/\<close> and \<open>operator%\<close> of \<open>_sus__signed_binary_logic_ops\<close>.\<close>

definition op_div :: "'a::len word \<Rightarrow> 'a word \<Rightarrow> error + 'a word" where
  "op_div l r =
     check (r \<noteq> 0)
       (check (l \<noteq> MIN_PRIMITIVE \<or> r \<noteq> - 1)
          (narrow (prim_div (promoted_bits l) (sint l) (sint r))))"

definition op_rem :: "'a::len word \<Rightarrow> 'a word \<Rightarrow> error + 'a word" where
  "op_rem l r =
     check (r \<noteq> 0)
       (check (l \<noteq> MIN_PRIMITIVE \<or> r \<noteq> - 1)
          (narrow (prim_rem (promoted_bits l) (sint l) (sint r))))"

text \<open>
  Modelled from the spec: \<open>__private::div_overflows\<close> and
  \<open>__private::div_overflows_nonzero\<close> are not among the sources. The spec defines the
  first as true iff \<open>b == 0\<close> or (\<open>signed\<close> and \<open>a == MIN\<close> and \<open>b == -1\<close>); the second
  is the same test for a caller that has excluded \<open>b == 0\<close>.
\<close>

definition div_overflows :: "'a::len word \<Rightarrow> 'a word \<Rightarrow> bool" where
  "div_overflows a b \<longleftrightarrow> b = 0 \<or> (a = MIN_PRIMITIVE \<and> b = - 1)"

definition div_overflows_nonzero :: "'a::len word \<Rightarrow> 'a word \<Rightarrow> bool" where
  "div_overflows_nonzero a b \<longleftrightarrow> a = MIN_PRIMITIVE \<and> b = - 1"

text \<open>\<open>wrapping_div\<close> of \<open>_sus__signed_div\<close> and \<open>wrapping_rem\<close> of \<open>_sus__signed_rem\<close>.\<close>

definition wrapping_div :: "'a::len word \<Rightarrow> 'a word \<Rightarrow> error + 'a word" where
  "wrapping_div a rhs =
     check (rhs \<noteq> 0)
       (if div_overflows_nonzero a rhs then Inr MIN_PRIMITIVE
        else narrow (prim_div (promoted_bits a) (sint a) (sint rhs)))"

definition wrapping_rem :: "'a::len word \<Rightarrow> 'a word \<Rightarrow> error + 'a word" where
  "wrapping_rem a rhs =
     check (rhs \<noteq> 0)
       (if div_overflows_nonzero a rhs then Inr 0
        else narrow (prim_rem (promoted_bits a) (sint a) (sint rhs)))"

section \<open>Absolute value and absolute difference\<close>

definition and_then :: "error + 'a \<Rightarrow> ('a \<Rightarrow> error + 'b) \<Rightarrow> error + 'b" where
  "and_then r f = (case r of Inl e \<Rightarrow> Inl e | Inr v \<Rightarrow> f v)"

text \<open>
  \<open>unsigned_abs\<close> of \<open>_sus__signed_abs\<close>. The result is of the unsigned type: the word is
  read by \<open>unat\<close>. The final \<open>+ UnsignedT{1}\<close> is an unsigned addition.
\<close>

definition unsigned_abs :: "'a::len word \<Rightarrow> error + 'a word" where
  "unsigned_abs a =
     (if sint a \<ge> 0 then Inr a
      else and_then (prim_add (promoted_bits a) (sint a) 1) (\<lambda>t.
           and_then (prim_neg (promoted_bits a) t) (\<lambda>n.
           Inr (word_of_int n + 1))))"

text \<open>\<open>abs_diff\<close> of \<open>_sus__signed_abs\<close>; the subtraction is the signed one.\<close>

definition abs_diff :: "'a::len word \<Rightarrow> 'a word \<Rightarrow> error + 'a word" where
  "abs_diff a r =
     (if sint a \<ge> sint r then narrow (prim_sub (promoted_bits a) (sint a) (sint r))
      else narrow (prim_sub (promoted_bits a) (sint r) (sint a)))"

section \<open>Shifts\<close>

text \<open>
  The machine shift on \<open>UnsignedT\<close>. C++ leaves a shift by the width of the (promoted)
  operand or more undefined. The model is as strict as the spec and refuses every amount
  at or above the width of the type itself.
\<close>

definition machine_shl :: "'a::len word \<Rightarrow> nat \<Rightarrow> error + 'a word" where
  "machine_shl u n = (if n \<ge> size u then Inl Undefined else Inr (push_bit n u))"

definition machine_shr :: "'a::len word \<Rightarrow> nat \<Rightarrow> error + 'a word" where
  "machine_shr u n = (if n \<ge> size u then Inl Undefined else Inr (drop_bit n u))"

text \<open>
  \<open>operator<<\<close> and \<open>operator>>\<close> of \<open>_sus__signed_binary_bit_ops\<close>; the right operand
  is a \<open>u32\<close>. Both shift the value cast to \<open>UnsignedT\<close>.
\<close>

definition op_shl :: "'a::len word \<Rightarrow> 32 word \<Rightarrow> error + 'a word" where
  "op_shl l r = check (unat r < BITS l) (machine_shl l (unat r))"

definition op_shr :: "'a::len word \<Rightarrow> 32 word \<Rightarrow> error + 'a word" where
  "op_shr l r = check (unat r < BITS l) (machine_shr l (unat r))"

text \<open>
  Modelled from the spec: \<open>__private::shl_with_overflow\<close> and
  \<open>__private::shr_with_overflow\<close> are not among the sources. The spec: a shift overflows
  iff the amount is at least the bit width; the machine shift is never performed at or
  above the width; the wrapping forms first reduce the amount modulo the width. The right
  shift is the one of \<open>operator>>\<close>, on the unsigned value.
\<close>

record 'v OverflowOut =
  overflow :: bool
  "value" :: 'v

definition shl_with_overflow :: "'a::len word \<Rightarrow> 32 word \<Rightarrow> error + 'a word OverflowOut" where
  "shl_with_overflow x shift =
     (let ov = (unat shift \<ge> BITS x);
          s = (if ov then unat shift mod BITS x else unat shift)
      in and_then (machine_shl x s) (\<lambda>v. Inr \<lparr>overflow = ov, value = v\<rparr>))"

definition shr_with_overflow :: "'a::len word \<Rightarrow> 32 word \<Rightarrow> error + 'a word OverflowOut" where
  "shr_with_overflow x shift =
     (let ov = (unat shift \<ge> BITS x);
          s = (if ov then unat shift mod BITS x else unat shift)
      in and_then (machine_shr x s) (\<lambda>v. Inr \<lparr>overflow = ov, value = v\<rparr>))"

text \<open>The methods of \<open>_sus__signed_shift\<close>.\<close>

definition checked_shl :: "'a::len word \<Rightarrow> 32 word \<Rightarrow> error + 'a word option" where
  "checked_shl a rhs =
     and_then (shl_with_overflow a rhs) (\<lambda>out.
       if \<not> overflow out then Inr (Some (value out)) else Inr None)"

definition overflowing_shl :: "'a::len word \<Rightarrow> 32 word \<Rightarrow> error + ('a word \<times> bool)" where
  "overflowing_shl a rhs =
     and_then (shl_with_overflow a rhs) (\<lambda>r. Inr (value r, overflow r))"

definition wrapping_shl :: "'a::len word \<Rightarrow> 32 word \<Rightarrow> error + 'a word" where
  "wrapping_shl a rhs = and_then (shl_with_overflow a rhs) (\<lambda>out. Inr (value out))"

definition checked_shr :: "'a::len word \<Rightarrow> 32 word \<Rightarrow> error + 'a word option" where
  "checked_shr a rhs =
     and_then (shr_with_overflow a rhs) (\<lambda>out.
       if \<not> overflow out then Inr (Some (value out)) else Inr None)"

definition overflowing_shr :: "'a::len word \<Rightarrow> 32 word \<Rightarrow> error + ('a word \<times> bool)" where
  "overflowing_shr a rhs =
     and_then (shr_with_overflow a rhs) (\<lambda>r. Inr (value r, overflow r))"

definition wrapping_shr :: "'a::len word \<Rightarrow> 32 word \<Rightarrow> error + 'a word" where
  "wrapping_shr a rhs = and_then (shr_with_overflow a rhs) (\<lambda>out. Inr (value out))"

section \<open>Conversion from another integer type\<close>

text \<open>\<open>if constexpr (static) ::sus::check(c);\<close> followed by the rest of the body.\<close>

definition check_if_constexpr :: "bool \<Rightarrow> bool \<Rightarrow> (error + 'b) \<Rightarrow> error + 'b" where
  "check_if_constexpr static c rest = (if static then check c rest else rest)"

text \<open>
  \<open>from<Signed S>\<close> of \<open>_sus__signed_from\<close>: the source is a word of type \<open>'s\<close> read by
  \<open>sint\<close>, the destination has type \<open>'d\<close>. Comparisons between two signed types compare
  the numbers.
\<close>

definition from_signed :: "'s::len word \<Rightarrow> error + 'd::len word" where
  "from_signed s =
     check_if_constexpr (sint (MIN_PRIMITIVE :: 'd word) > sint (MIN_PRIMITIVE :: 's word))
         (sint s \<ge> sint (MIN_PRIMITIVE :: 'd word))
       (check_if_constexpr (sint (MAX_PRIMITIVE :: 'd word) < sint (MAX_PRIMITIVE :: 's word))
           (sint s \<le> sint (MAX_PRIMITIVE :: 'd word))
         (Inr (word_of_int (sint s))))"

text \<open>
  \<open>from<Unsigned U>\<close> of \<open>_sus__signed_from\<close>: \<open>umax\<close> is \<open>MAX_PRIMITIVE\<close> cast to the
  primitive type of \<open>U\<close>, which keeps its low bits; the two comparisons are unsigned.
  \<open>U::MAX_PRIMITIVE\<close> is the greatest value of the unsigned type, all bits set.
\<close>

definition UMAX_PRIMITIVE :: "'u::len word" where
  "UMAX_PRIMITIVE = - 1"

definition from_unsigned :: "'u::len word \<Rightarrow> error + 'd::len word" where
  "from_unsigned u =
     (let umax = (word_of_int (sint (MAX_PRIMITIVE :: 'd word)) :: 'u word)
      in check_if_constexpr (umax < UMAX_PRIMITIVE) (u \<le> umax)
           (Inr (word_of_int (uint u))))"

text \<open>
  Modelled from the spec: the \<open>from\<close> of the unsigned types is not among the sources. The
  spec: compare \<open>Source::MIN/MAX\<close> with \<open>Dest::MIN/MAX\<close> at compile time, emit a run-time
  range check only for the bounds that are not statically guaranteed to fit, and fail if
  the value is outside \<open>[Dest::MIN, Dest::MAX]\<close>. The least value of an unsigned type
  is 0.
\<close>

definition range_checked :: "int \<Rightarrow> int \<Rightarrow> int \<Rightarrow> int \<Rightarrow> int \<Rightarrow> error + int" where
  "range_checked smin smax dmin dmax v =
     check_if_constexpr (dmin > smin) (v \<ge> dmin)
       (check_if_constexpr (dmax < smax) (v \<le> dmax) (Inr v))"

definition unsigned_from_signed :: "'s::len word \<Rightarrow> error + 'd::len word" where
  "unsigned_from_signed s =
     narrow (range_checked (sint (MIN_PRIMITIVE :: 's word)) (sint (MAX_PRIMITIVE :: 's word))
               0 (uint (UMAX_PRIMITIVE :: 'd word)) (sint s))"

definition unsigned_from_unsigned :: "'u::len word \<Rightarrow> error + 'd::len word" where
  "unsigned_from_unsigned u =
     narrow (range_checked 0 (uint (UMAX_PRIMITIVE :: 'u word))
               0 (uint (UMAX_PRIMITIVE :: 'd word)) (uint u))"

section \<open>Euclidean division and remainder\<close>

text \<open>
  Modelled from the spec: \<open>__private::div_euclid\<close> and \<open>__private::rem_euclid\<close> are not
  among the sources. The spec defines \<open>q\<close> and \<open>r\<close> by \<open>a = q*b + r\<close> and
  \<open>0 <= r < |b|\<close> and describes the computation as the truncated quotient and a
  correction step, the way \<open>div_euclid\<close> and \<open>rem_euclid\<close> of the float types in the
  sources are written. The caller has excluded a zero divisor and \<open>MIN / -1\<close>.
\<close>

definition private_div_euclid :: "'a::len word \<Rightarrow> 'a word \<Rightarrow> error + 'a word" where
  "private_div_euclid x y =
     and_then (prim_div (promoted_bits x) (sint x) (sint y)) (\<lambda>q.
     and_then (prim_rem (promoted_bits x) (sint x) (sint y)) (\<lambda>r.
       if r \<ge> 0 then narrow (Inr q)
       else if sint y > 0 then narrow (prim_sub (promoted_bits x) q 1)
       else narrow (prim_add (promoted_bits x) q 1)))"

definition private_rem_euclid :: "'a::len word \<Rightarrow> 'a word \<Rightarrow> error + 'a word" where
  "private_rem_euclid x y =
     and_then (prim_rem (promoted_bits x) (sint x) (sint y)) (\<lambda>r.
       if r < 0 then
         (if sint y < 0 then narrow (prim_sub (promoted_bits x) r (sint y))
          else narrow (prim_add (promoted_bits x) r (sint y)))
       else narrow (Inr r))"

text \<open>\<open>div_euclid\<close> and \<open>rem_euclid\<close> of \<open>_sus__signed_euclid\<close>.\<close>

definition div_euclid :: "'a::len word \<Rightarrow> 'a word \<Rightarrow> error + 'a word" where
  "div_euclid a rhs = check (\<not> div_overflows a rhs) (private_div_euclid a rhs)"

definition rem_euclid :: "'a::len word \<Rightarrow> 'a word \<Rightarrow> error + 'a word" where
  "rem_euclid a rhs = check (\<not> div_overflows a rhs) (private_rem_euclid a rhs)"

section \<open>Floating point values\<close>

text \<open>
  A value of the primitive \<open>float\<close> or \<open>double\<close> is its IEEE 754 bit pattern, a word of
  32 or 64 bits: the sign bit, the exponent field and a fraction field of 23 (binary32)
  or 52 (binary64) bits.
\<close>

definition frac_bits :: "'a::len word \<Rightarrow> nat" where
  "frac_bits x = (if size x = 64 then 52 else 23)"

definition exp_bits :: "'a::len word \<Rightarrow> nat" where
  "exp_bits x = size x - 1 - frac_bits x"

definition float_signbit :: "'a::len word \<Rightarrow> bool" where
  "float_signbit x = bit x (size x - 1)"

definition float_magnitude :: "'a::len word \<Rightarrow> int" where
  "float_magnitude x = uint (take_bit (size x - 1) x)"

text \<open>
  Modelled from the spec: \<open>__private::float_is_nan\<close> is not among the sources. The
  classification is derived from the bit pattern: a NaN has all exponent bits set and a
  fraction that is not zero, so that its magnitude is above the one of infinity.
\<close>

definition infinity_magnitude :: "'a::len word \<Rightarrow> int" where
  "infinity_magnitude x = 2 ^ (size x - 1) - 2 ^ frac_bits x"

definition float_is_nan :: "'a::len word \<Rightarrow> bool" where
  "float_is_nan x \<longleftrightarrow> float_magnitude x > infinity_magnitude x"

text \<open>
  The comparisons of the primitive: false when an operand is NaN; otherwise the order of
  the numbers, which is the order of the signed magnitudes (\<open>-0.0\<close> and \<open>0.0\<close> are
  equal).
\<close>

definition float_key :: "'a::len word \<Rightarrow> int" where
  "float_key x = (if float_signbit x then - float_magnitude x else float_magnitude x)"

definition float_lt :: "'a::len word \<Rightarrow> 'a word \<Rightarrow> bool" where
  "float_lt x y \<longleftrightarrow> \<not> float_is_nan x \<and> \<not> float_is_nan y \<and> float_key x < float_key y"

definition float_le :: "'a::len word \<Rightarrow> 'a word \<Rightarrow> bool" where
  "float_le x y \<longleftrightarrow> \<not> float_is_nan x \<and> \<not> float_is_nan y \<and> float_key x \<le> float_key y"

definition float_gt :: "'a::len word \<Rightarrow> 'a word \<Rightarrow> bool" where
  "float_gt x y \<longleftrightarrow> float_lt y x"

text \<open>
  The constants \<open>_primitive{-1}\<close> (sign bit set, biased exponent of 0, fraction 0) and
  \<open>NAN\<close>, whose value is defined outside the sources: the quiet NaN, all exponent bits
  and the top fraction bit set.
\<close>

definition float_minus_one :: "'a::len word" where
  "float_minus_one =
     (let x = (0 :: 'a word)
      in push_bit (size x - 1) 1 OR push_bit (frac_bits x) (2 ^ (exp_bits x - 1) - 1))"

definition NAN :: "'a::len word" where
  "NAN = (let x = (0 :: 'a word) in push_bit (frac_bits x - 1) (mask (exp_bits x + 1)))"

section \<open>Float methods\<close>

text \<open>\<open>is_nan\<close> of the float types.\<close>

definition is_nan :: "'a::len word \<Rightarrow> bool" where
  "is_nan x = float_is_nan x"

text \<open>
  Modelled from the spec: \<open>__private::float_clamp\<close> is not among the sources. The spec
  and the comment of \<open>clamp\<close>: returns max if self is greater than max, and min if self
  is less than min; otherwise this returns self.
\<close>

definition float_clamp :: "'a::len word \<Rightarrow> 'a word \<Rightarrow> 'a word \<Rightarrow> 'a word" where
  "float_clamp x min_v max_v =
     (if float_gt x max_v then max_v else if float_lt x min_v then min_v else x)"

text \<open>\<open>clamp\<close> of the float types.\<close>

definition clamp :: "'a::len word \<Rightarrow> 'a word \<Rightarrow> 'a word \<Rightarrow> error + 'a word" where
  "clamp x min_v max_v =
     check (\<not> is_nan min_v \<and> \<not> is_nan max_v \<and> float_le min_v max_v)
       (Inr (float_clamp x min_v max_v))"

text \<open>
  \<open>asinh\<close> of the float types. The function \<open>::asinh\<close> of the C library is a parameter.
\<close>

definition asinh :: "('a::len word \<Rightarrow> 'a word) \<Rightarrow> 'a word \<Rightarrow> 'a word" where
  "asinh std_asinh x = (if float_lt x float_minus_one then NAN else std_asinh x)"

section \<open>Byte serialization\<close>

text \<open>
  The host is a parameter: \<open>little\<close> is \<open>::sus::assertions::is_little_endian()\<close>, and
  \<open>is_big_endian()\<close> is its negation. \<open>const_eval\<close> is \<open>std::is_constant_evaluated()\<close>.
  A byte array is a list of \<open>sizeof(T)\<close> bytes.
\<close>

definition sizeof :: "'a::len word \<Rightarrow> nat" where
  "sizeof v = size v div 8"

text \<open>
  \<open>memcpy\<close> from and to an integer object: the object representation has the least
  significant byte first on a little-endian host and last on a big-endian one.
\<close>

definition object_bytes :: "bool \<Rightarrow> 'a::len word \<Rightarrow> 8 word list" where
  "object_bytes little v =
     (let bs = map (\<lambda>i. ucast (drop_bit (8 * i) v)) [0..<sizeof v]
      in if little then bs else rev bs)"

definition object_of_bytes :: "bool \<Rightarrow> 8 word list \<Rightarrow> 'a::len word" where
  "object_of_bytes little bytes =
     foldr (\<lambda>b acc. ucast b OR push_bit 8 acc) (if little then bytes else rev bytes) 0"

text \<open>
  Modelled from the spec: \<open>__private::swap_bytes\<close> is not among the sources; it reverses
  the byte order of the integer.
\<close>

definition swap_bytes :: "'a::len word \<Rightarrow> 'a word" where
  "swap_bytes v = object_of_bytes True (rev (object_bytes True v))"

text \<open>The functions of \<open>_sus__signed_endian\<close>.\<close>

definition from_be :: "bool \<Rightarrow> 'a::len word \<Rightarrow> 'a word" where
  "from_be little x = (if \<not> little then x else swap_bytes x)"

definition from_le :: "bool \<Rightarrow> 'a::len word \<Rightarrow> 'a word" where
  "from_le little x = (if little then x else swap_bytes x)"

definition to_be :: "bool \<Rightarrow> 'a::len word \<Rightarrow> 'a word" where
  "to_be little x = (if \<not> little then x else swap_bytes x)"

definition to_le :: "bool \<Rightarrow> 'a::len word \<Rightarrow> 'a word" where
  "to_le little x = (if little then x else swap_bytes x)"

text \<open>
  One round of the loop of \<open>to_ne_bytes\<close>, on the pair of the array and \<open>uval\<close>. The
  array starts uninitialized; the loop writes every element.
\<close>

definition to_ne_step :: "bool \<Rightarrow> nat \<Rightarrow> nat \<Rightarrow> 8 word list \<times> 'a::len word
    \<Rightarrow> 8 word list \<times> 'a word" where
  "to_ne_step little n i st =
     (case st of (bytes, uval) \<Rightarrow>
        ((if little then bytes[i := ucast (uval AND 0xff)]
          else bytes[n - 1 - i := ucast (uval AND 0xff)]),
         drop_bit 8 uval))"

definition to_ne_bytes :: "bool \<Rightarrow> bool \<Rightarrow> 'a::len word \<Rightarrow> 8 word list" where
  "to_ne_bytes const_eval little a =
     (if const_eval
      then fst (fold (to_ne_step little (sizeof a)) [0..<sizeof a] (replicate (sizeof a) 0, a))
      else object_bytes little a)"

definition to_be_bytes :: "bool \<Rightarrow> bool \<Rightarrow> 'a::len word \<Rightarrow> 8 word list" where
  "to_be_bytes const_eval little a = to_ne_bytes const_eval little (to_be little a)"

definition to_le_bytes :: "bool \<Rightarrow> bool \<Rightarrow> 'a::len word \<Rightarrow> 8 word list" where
  "to_le_bytes const_eval little a = to_ne_bytes const_eval little (to_le little a)"

text \<open>
  One round of the loop of \<open>from_ne_bytes\<close>:
  \<open>val |= bytes.get(i) << (sizeof(T) - 1 - i)\<close>.
\<close>

definition from_ne_step :: "nat \<Rightarrow> 8 word list \<Rightarrow> nat \<Rightarrow> 'a::len word \<Rightarrow> 'a word" where
  "from_ne_step n bytes i val = val OR push_bit (n - 1 - i) (ucast (bytes ! i))"

definition from_ne_bytes :: "bool \<Rightarrow> bool \<Rightarrow> 8 word list \<Rightarrow> 'a::len word" where
  "from_ne_bytes const_eval little bytes =
     (let n = sizeof (0 :: 'a word)
      in if const_eval then fold (from_ne_step n bytes) [0..<n] 0
         else object_of_bytes little bytes)"

definition from_be_bytes :: "bool \<Rightarrow> bool \<Rightarrow> 8 word list \<Rightarrow> 'a::len word" where
  "from_be_bytes const_eval little bytes = from_be little (from_ne_bytes const_eval little bytes)"

definition from_le_bytes :: "bool \<Rightarrow> bool \<Rightarrow> 8 word list \<Rightarrow> 'a::len word" where
  "from_le_bytes const_eval little bytes = from_le little (from_ne_bytes const_eval little bytes)"

section \<open>Facts about the representation\<close>

lemma sint_word_of_int_fits:
  assumes "- (2 ^ (LENGTH('a::len) - 1)) \<le> x" and "x < 2 ^ (LENGTH('a) - 1)"
  shows "sint (word_of_int x :: 'a word) = x"
  using assms by (simp add: sint_sbintrunc' signed_take_bit_int_eq_self)

lemma sint_MIN: "sint (MIN_PRIMITIVE :: 'a::len word) = - (2 ^ (LENGTH('a) - 1))"
proof -
  have "sint (word_of_int (- (2 ^ (LENGTH('a) - 1))) :: 'a word) = - (2 ^ (LENGTH('a) - 1))"
    by (rule sint_word_of_int_fits) simp_all
  then show ?thesis by (simp add: MIN_PRIMITIVE_def)
qed

lemma sint_eq_MIN_iff:
  "(a :: 'a::len word) = MIN_PRIMITIVE \<longleftrightarrow> sint a = - (2 ^ (LENGTH('a) - 1))"
  using sint_MIN [where 'a='a] by (metis signed_word_eqI)

lemma promoted_fits:
  assumes "- (2 ^ (LENGTH('a::len) - 1)) \<le> x" and "x < 2 ^ (LENGTH('a) - 1)"
  shows "arith_result (promoted_bits (a :: 'a word)) x = Inr x"
proof -
  have le: "LENGTH('a) - 1 \<le> promoted_bits a - 1"
    by (simp add: promoted_bits_def word_size)
  have "(2::int) ^ (LENGTH('a) - 1) \<le> 2 ^ (promoted_bits a - 1)"
    using le by (rule power_increasing) simp
  then have "- (2 ^ (promoted_bits a - 1)) \<le> x" and "x < 2 ^ (promoted_bits a - 1)"
    using assms by linarith+
  then show ?thesis unfolding arith_result_def by (rule if_P [OF conjI])
qed

lemma neg_fits:
  assumes "(a :: 'a::len word) \<noteq> MIN_PRIMITIVE"
  shows "narrow (prim_neg (promoted_bits a) (sint a)) = Inr (- a)"
    and "sint (- a) = - sint a"
proof -
  have lo: "- (2 ^ (LENGTH('a) - 1)) < sint a"
    using assms sint_ge [of a] by (simp add: sint_eq_MIN_iff)
  have hi: "sint a < 2 ^ (LENGTH('a) - 1)" by (rule sint_lt)
  have "arith_result (promoted_bits a) (- sint a) = Inr (- sint a)"
    using lo hi by (intro promoted_fits) simp_all
  then show "narrow (prim_neg (promoted_bits a) (sint a)) = Inr (- a)"
    by (simp add: narrow_def prim_neg_def)
  have "sint (word_of_int (- sint a) :: 'a word) = - sint a"
    using lo hi by (intro sint_word_of_int_fits) simp_all
  then show "sint (- a) = - sint a" by simp
qed

section \<open>Claims\<close>

text \<open>
  C3: negating \<open>MIN\<close> is the only overflow of the neg family. Unary minus panics on \<open>MIN\<close>,
  \<open>checked_neg\<close> gives no value, \<open>wrapping_neg\<close> gives \<open>MIN\<close> and \<open>saturating_neg\<close> gives
  \<open>MAX\<close>; on every other value the four return the exact negation.
\<close>

theorem neg_family:
  fixes a :: "'a::len word"
  shows "op_neg (MIN_PRIMITIVE :: 'a word) = Inl Panic
       \<and> checked_neg (MIN_PRIMITIVE :: 'a word) = Inr None
       \<and> wrapping_neg (MIN_PRIMITIVE :: 'a word) = Inr MIN_PRIMITIVE
       \<and> saturating_neg (MIN_PRIMITIVE :: 'a word) = Inr MAX_PRIMITIVE
       \<and> (a \<noteq> MIN_PRIMITIVE \<longrightarrow>
            (\<exists>r. sint r = - sint a
               \<and> op_neg a = Inr r \<and> checked_neg a = Inr (Some r)
               \<and> wrapping_neg a = Inr r \<and> saturating_neg a = Inr r))"
proof -
  have "\<exists>r. sint r = - sint a
          \<and> op_neg a = Inr r \<and> checked_neg a = Inr (Some r)
          \<and> wrapping_neg a = Inr r \<and> saturating_neg a = Inr r"
    if "a \<noteq> MIN_PRIMITIVE"
    using neg_fits [OF that] that
    by (intro exI [of _ "- a"])
      (simp add: op_neg_def checked_neg_def wrapping_neg_def saturating_neg_def
        check_def some_of_def)
  then show ?thesis
    by (simp add: op_neg_def checked_neg_def wrapping_neg_def saturating_neg_def check_def)
qed

theorem neg_family_witness:
  "op_neg (MIN_PRIMITIVE :: 8 word) = Inl Panic
   \<and> (5 :: 8 word) \<noteq> MIN_PRIMITIVE
   \<and> (\<exists>r. sint r = - sint (5 :: 8 word)
         \<and> op_neg (5 :: 8 word) = Inr r \<and> checked_neg (5 :: 8 word) = Inr (Some r)
         \<and> wrapping_neg (5 :: 8 word) = Inr r \<and> saturating_neg (5 :: 8 word) = Inr r)"
proof -
  have ne: "(5 :: 8 word) \<noteq> MIN_PRIMITIVE" by (simp add: MIN_PRIMITIVE_def)
  show ?thesis using ne neg_family [of "5 :: 8 word"] by simp
qed

lemma sint_eq_0_iff: "sint (b :: 'a::len word) = 0 \<longleftrightarrow> b = 0"
  by (metis signed_word_eqI sint_0)

lemma sint_eq_m1_iff: "sint (b :: 'a::len word) = - 1 \<longleftrightarrow> b = - 1"
  by (metis signed_word_eqI sint_n1)

lemma sdiv_in_range:
  fixes a b :: "'a::len word"
  assumes "b \<noteq> 0" and "\<not> (a = MIN_PRIMITIVE \<and> b = - 1)"
  shows "- (2 ^ (LENGTH('a) - 1)) \<le> sint a sdiv sint b"
    and "sint a sdiv sint b < 2 ^ (LENGTH('a) - 1)"
proof -
  have lo: "- (2 ^ (LENGTH('a) - 1)) \<le> sint a" by (rule sint_ge)
  have hi: "sint a < 2 ^ (LENGTH('a) - 1)" by (rule sint_lt)
  have rng: "- \<bar>sint a\<bar> \<le> sint a sdiv sint b" "sint a sdiv sint b \<le> \<bar>sint a\<bar>"
    using sdiv_int_range [of "sint a" "sint b"] by simp_all
  show "- (2 ^ (LENGTH('a) - 1)) \<le> sint a sdiv sint b"
    using lo hi rng by linarith
  show "sint a sdiv sint b < 2 ^ (LENGTH('a) - 1)"
  proof (cases "a = MIN_PRIMITIVE")
    case False
    then have "- (2 ^ (LENGTH('a) - 1)) < sint a"
      using lo by (simp add: sint_eq_MIN_iff)
    then show ?thesis using hi rng by linarith
  next
    case True
    then have b: "sint b \<noteq> - 1" using assms(2) by (simp add: sint_eq_m1_iff)
    have a: "sint a = - (2 ^ (LENGTH('a) - 1))" using True by (simp add: sint_MIN)
    then have "sint a \<noteq> 0" by simp
    then have "sint a sdiv sint b \<noteq> - sint a"
      using b by simp
    moreover have "\<bar>sint a\<bar> = - sint a" using a by simp
    ultimately have "sint a sdiv sint b < - sint a" using rng by linarith
    then show ?thesis using a by simp
  qed
qed

lemma smod_in_range:
  fixes a b :: "'a::len word"
  assumes "b \<noteq> 0"
  shows "- (2 ^ (LENGTH('a) - 1)) \<le> sint a smod sint b"
    and "sint a smod sint b < 2 ^ (LENGTH('a) - 1)"
proof -
  have lo: "- (2 ^ (LENGTH('a) - 1)) \<le> sint b" by (rule sint_ge)
  have hi: "sint b < 2 ^ (LENGTH('a) - 1)" by (rule sint_lt)
  have rng: "- \<bar>sint b\<bar> + 1 \<le> sint a smod sint b" "sint a smod sint b \<le> \<bar>sint b\<bar> - 1"
    using smod_int_range [of "sint b" "sint a"] assms by (simp_all add: sint_eq_0_iff)
  show "- (2 ^ (LENGTH('a) - 1)) \<le> sint a smod sint b"
    using lo hi rng by linarith
  show "sint a smod sint b < 2 ^ (LENGTH('a) - 1)"
    using lo hi rng by linarith
qed

lemma div_fits:
  fixes a b :: "'a::len word"
  assumes "b \<noteq> 0" and "\<not> (a = MIN_PRIMITIVE \<and> b = - 1)"
  shows "\<exists>q. narrow (prim_div (promoted_bits a) (sint a) (sint b)) = Inr (q :: 'a word)
            \<and> sint q = sint a sdiv sint b"
proof -
  note r = sdiv_in_range [OF assms]
  have "arith_result (promoted_bits a) (sint a sdiv sint b) = Inr (sint a sdiv sint b)"
    using r by (rule promoted_fits)
  moreover have "sint (word_of_int (sint a sdiv sint b) :: 'a word) = sint a sdiv sint b"
    using r by (rule sint_word_of_int_fits)
  ultimately show ?thesis
    using assms(1) by (simp add: narrow_def prim_div_def sint_eq_0_iff)
qed

lemma rem_fits:
  fixes a b :: "'a::len word"
  assumes "b \<noteq> 0" and "\<not> (a = MIN_PRIMITIVE \<and> b = - 1)"
  shows "\<exists>r. narrow (prim_rem (promoted_bits a) (sint a) (sint b)) = Inr (r :: 'a word)
            \<and> sint r = sint a smod sint b"
proof -
  note q = sdiv_in_range [OF assms]
  note r = smod_in_range [OF assms(1), of a]
  have "arith_result (promoted_bits a) (sint a sdiv sint b) = Inr (sint a sdiv sint b)"
    using q by (rule promoted_fits)
  moreover have "sint (word_of_int (sint a smod sint b) :: 'a word) = sint a smod sint b"
    using r by (rule sint_word_of_int_fits)
  ultimately show ?thesis
    using assms(1) by (simp add: narrow_def prim_rem_def sint_eq_0_iff)
qed

text \<open>
  C2: \<open>a / b\<close> and \<open>a % b\<close> panic exactly when \<open>b == 0\<close> or (\<open>a == MIN\<close> and \<open>b == -1\<close>),
  and otherwise return the exact truncated quotient and remainder. For \<open>b != 0\<close>,
  \<open>wrapping_div(MIN, -1)\<close> is \<open>MIN\<close>, \<open>wrapping_rem(MIN, -1)\<close> is \<open>0\<close>, and on every other
  pair the wrapping variants return the exact quotient and remainder.
\<close>

theorem div_rem_panic_and_wrapping:
  fixes a b :: "'a::len word"
  shows "(op_div a b = Inl Panic \<longleftrightarrow> b = 0 \<or> (a = MIN_PRIMITIVE \<and> b = - 1))
       \<and> (op_rem a b = Inl Panic \<longleftrightarrow> b = 0 \<or> (a = MIN_PRIMITIVE \<and> b = - 1))
       \<and> (b \<noteq> 0 \<longrightarrow>
            (if a = MIN_PRIMITIVE \<and> b = - 1
             then wrapping_div a b = Inr MIN_PRIMITIVE \<and> wrapping_rem a b = Inr 0
             else (\<exists>q r. sint q = sint a sdiv sint b \<and> sint r = sint a smod sint b
                     \<and> op_div a b = Inr q \<and> op_rem a b = Inr r
                     \<and> wrapping_div a b = Inr q \<and> wrapping_rem a b = Inr r)))"
proof (cases "b = 0 \<or> (a = MIN_PRIMITIVE \<and> b = - 1)")
  case True
  then show ?thesis
    by (auto simp: op_div_def op_rem_def wrapping_div_def wrapping_rem_def check_def
        div_overflows_nonzero_def)
next
  case False
  then have b: "b \<noteq> 0" and ov: "\<not> (a = MIN_PRIMITIVE \<and> b = - 1)" by simp_all
  obtain q :: "'a word" where q: "narrow (prim_div (promoted_bits a) (sint a) (sint b)) = Inr q"
    "sint q = sint a sdiv sint b"
    using div_fits [OF b ov] by blast
  obtain r :: "'a word" where r: "narrow (prim_rem (promoted_bits a) (sint a) (sint b)) = Inr r"
    "sint r = sint a smod sint b"
    using rem_fits [OF b ov] by blast
  have "op_div a b = Inr q" "op_rem a b = Inr r" "wrapping_div a b = Inr q"
    "wrapping_rem a b = Inr r"
    using b ov q(1) r(1)
    by (auto simp: op_div_def op_rem_def wrapping_div_def wrapping_rem_def check_def
        div_overflows_nonzero_def)
  then show ?thesis using b ov q(2) r(2) by auto
qed


theorem div_rem_panic_and_wrapping_witness:
  "(2 :: 8 word) \<noteq> 0 \<and> \<not> ((- 7 :: 8 word) = MIN_PRIMITIVE \<and> (2 :: 8 word) = - 1)
   \<and> (\<exists>q r. sint q = - 3 \<and> sint r = - 1
          \<and> op_div (- 7 :: 8 word) 2 = Inr q \<and> op_rem (- 7 :: 8 word) 2 = Inr r
          \<and> wrapping_div (- 7 :: 8 word) 2 = Inr q \<and> wrapping_rem (- 7 :: 8 word) 2 = Inr r)
   \<and> (- 1 :: 8 word) \<noteq> 0
   \<and> wrapping_div (MIN_PRIMITIVE :: 8 word) (- 1) = Inr MIN_PRIMITIVE
   \<and> wrapping_rem (MIN_PRIMITIVE :: 8 word) (- 1) = Inr 0
   \<and> op_div (MIN_PRIMITIVE :: 8 word) (- 1) = Inl Panic"
proof -
  have ne: "(- 7 :: 8 word) \<noteq> MIN_PRIMITIVE" "(2 :: 8 word) \<noteq> 0" "(- 1 :: 8 word) \<noteq> 0"
    by (simp_all add: MIN_PRIMITIVE_def)
  have v: "sint (- 7 :: 8 word) sdiv sint (2 :: 8 word) = - 3"
    "sint (- 7 :: 8 word) smod sint (2 :: 8 word) = - 1"
    by (simp_all add: signed_divide_int_def signed_modulo_int_def)
  have "\<exists>q r. sint q = - 3 \<and> sint r = - 1
          \<and> op_div (- 7 :: 8 word) 2 = Inr q \<and> op_rem (- 7 :: 8 word) 2 = Inr r
          \<and> wrapping_div (- 7 :: 8 word) 2 = Inr q \<and> wrapping_rem (- 7 :: 8 word) 2 = Inr r"
    using ne div_rem_panic_and_wrapping [of "- 7 :: 8 word" 2] unfolding v by simp
  moreover have "wrapping_div (MIN_PRIMITIVE :: 8 word) (- 1) = Inr MIN_PRIMITIVE
      \<and> wrapping_rem (MIN_PRIMITIVE :: 8 word) (- 1) = Inr 0
      \<and> op_div (MIN_PRIMITIVE :: 8 word) (- 1) = Inl Panic"
    using ne div_rem_panic_and_wrapping [of "MIN_PRIMITIVE :: 8 word" "- 1"] by simp
  ultimately show ?thesis using ne by simp
qed

lemma uint_word_of_int_fits:
  assumes "0 \<le> x" and "x < 2 ^ LENGTH('a::len)"
  shows "uint (word_of_int x :: 'a word) = x"
  using assms by (simp add: uint_word_of_int take_bit_int_eq_self)

lemma uint_eq_sint_nonneg:
  assumes "0 \<le> sint (a :: 'a::len word)"
  shows "uint a = sint a"
proof -
  have "sint a < 2 ^ (LENGTH('a) - 1)" by (rule sint_lt)
  also have "(2::int) ^ (LENGTH('a) - 1) \<le> 2 ^ LENGTH('a)"
    by (rule power_increasing) simp_all
  finally have "uint (word_of_int (sint a) :: 'a word) = sint a"
    using assms by (intro uint_word_of_int_fits) simp_all
  then show ?thesis by simp
qed

text \<open>
  C5: \<open>unsigned_abs\<close> returns the exact absolute value in the unsigned type for every
  value, \<open>MIN\<close> included, without a panic and without an overflow on the way.
\<close>

theorem unsigned_abs_exact:
  fixes a :: "'a::len word"
  shows "\<exists>u. unsigned_abs a = Inr u \<and> uint u = \<bar>sint a\<bar>"
proof (cases "0 \<le> sint a")
  case True
  then show ?thesis by (simp add: unsigned_abs_def uint_eq_sint_nonneg)
next
  case False
  have lo: "- (2 ^ (LENGTH('a) - 1)) \<le> sint a" by (rule sint_ge)
  have p: "(2::int) ^ (LENGTH('a) - 1) < 2 ^ LENGTH('a)"
    by (rule power_strict_increasing) simp_all
  have "arith_result (promoted_bits a) (sint a + 1) = Inr (sint a + 1)"
    using lo False by (intro promoted_fits) linarith+
  moreover have "arith_result (promoted_bits a) (- (sint a + 1)) = Inr (- (sint a + 1))"
    using lo False by (intro promoted_fits) linarith+
  ultimately have u: "unsigned_abs a = Inr (word_of_int (- (sint a + 1)) + 1)"
    using False by (simp add: unsigned_abs_def and_then_def prim_add_def prim_neg_def)
  have "uint (word_of_int (- sint a) :: 'a word) = - sint a"
    using lo False p by (intro uint_word_of_int_fits) linarith+
  then have "uint (word_of_int (- (sint a + 1)) + 1 :: 'a word) = \<bar>sint a\<bar>"
    using False by (simp add: wi_hom_syms)
  with u show ?thesis by simp
qed

lemma abs_diff_exact_if_defined:
  fixes a b :: "'a::len word"
  assumes "abs_diff a b = Inr u"
  shows "uint u = \<bar>sint a - sint b\<bar>"
proof -
  have lo: "- (2 ^ (LENGTH('a) - 1)) \<le> sint a" "- (2 ^ (LENGTH('a) - 1)) \<le> sint b"
    by (rule sint_ge)+
  have hi: "sint a < 2 ^ (LENGTH('a) - 1)" "sint b < 2 ^ (LENGTH('a) - 1)"
    by (rule sint_lt)+
  have "(2::int) ^ LENGTH('a) = 2 * 2 ^ (LENGTH('a) - 1)"
    by (metis len_gt_0 power_eq_if less_numeral_extra(3))
  then have "\<bar>sint a - sint b\<bar> < 2 ^ LENGTH('a)"
    using lo hi by linarith
  then have "uint (word_of_int \<bar>sint a - sint b\<bar> :: 'a word) = \<bar>sint a - sint b\<bar>"
    by (intro uint_word_of_int_fits) simp_all
  moreover have "u = word_of_int \<bar>sint a - sint b\<bar>"
    using assms
    by (auto simp: abs_diff_def narrow_def prim_sub_def arith_result_def
        split: if_splits)
  ultimately show ?thesis by simp
qed

text \<open>
  A subtraction that wraps around, as \<open>sub_with_overflow\<close> computes it, would give the
  exact difference for every pair.
\<close>

lemma wrapped_difference_exact:
  fixes a b :: "'a::len word"
  assumes "sint b \<le> sint a"
  shows "uint (a - b) = sint a - sint b"
proof -
  have lo: "- (2 ^ (LENGTH('a) - 1)) \<le> sint b" by (rule sint_ge)
  have hi: "sint a < 2 ^ (LENGTH('a) - 1)" by (rule sint_lt)
  have "(2::int) ^ LENGTH('a) = 2 * 2 ^ (LENGTH('a) - 1)"
    by (metis len_gt_0 power_eq_if less_numeral_extra(3))
  then have "sint a - sint b < 2 ^ LENGTH('a)" using lo hi by linarith
  then have "uint (word_of_int (sint a - sint b) :: 'a word) = sint a - sint b"
    using assms by (intro uint_word_of_int_fits) simp_all
  then show ?thesis by simp
qed

text \<open>
  C10: \<open>abs_diff\<close> is claimed to return the exact absolute difference for every pair,
  \<open>MAX\<close> and \<open>MIN\<close> included. For the 32-bit type the subtraction
  \<open>primitive_value - r.primitive_value\<close> is a signed subtraction in \<open>int\<close>, and
  \<open>MAX - MIN\<close> does not fit it: the behaviour is undefined.
\<close>

theorem abs_diff_i32_MAX_MIN_undefined:
  "abs_diff (MAX_PRIMITIVE :: 32 word) MIN_PRIMITIVE = Inl Undefined"
  by (simp add: abs_diff_def MAX_PRIMITIVE_def MIN_PRIMITIVE_def prim_sub_def
      promoted_bits_def word_size arith_result_def narrow_def)

lemma abs_diff_i8_defined:
  fixes a b :: "8 word"
  shows "\<exists>u. abs_diff a b = Inr u \<and> uint u = \<bar>sint a - sint b\<bar>"
proof -
  have "- (2 ^ 7) \<le> sint a" "- (2 ^ 7) \<le> sint b" "sint a < 2 ^ 7" "sint b < 2 ^ 7"
    using sint_ge [of a] sint_ge [of b] sint_lt [of a] sint_lt [of b] by simp_all
  then have "\<exists>u. abs_diff a b = Inr u"
    by (simp add: abs_diff_def prim_sub_def promoted_bits_def word_size arith_result_def
        narrow_def)
  then show ?thesis using abs_diff_exact_if_defined by blast
qed

lemma shl_with_overflow_eq:
  "shl_with_overflow a r =
     Inr \<lparr>overflow = (unat r \<ge> BITS a), value = push_bit (unat r mod BITS a) a\<rparr>"
  by (simp add: shl_with_overflow_def Let_def machine_shl_def and_then_def BITS_def word_size
      not_le)

lemma shr_with_overflow_eq:
  "shr_with_overflow a r =
     Inr \<lparr>overflow = (unat r \<ge> BITS a), value = drop_bit (unat r mod BITS a) a\<rparr>"
  by (simp add: shr_with_overflow_def Let_def machine_shr_def and_then_def BITS_def word_size
      not_le)

text \<open>
  C4: a shift overflows exactly when \<open>rhs >= BITS\<close>. The operators \<open><<\<close> and \<open>>>\<close> panic
  exactly then, and otherwise shift by \<open>rhs\<close>; no form ever runs the machine shift with
  an amount at or above the width (no outcome is \<open>Undefined\<close>). \<open>wrapping_shl\<close> and
  \<open>wrapping_shr\<close> shift by \<open>rhs\<close> modulo the width, \<open>overflowing_shl\<close> and
  \<open>overflowing_shr\<close> flag the overflow, \<open>checked_shl\<close> and \<open>checked_shr\<close> give no value.
\<close>

theorem shift_overflow:
  fixes a :: "'a::len word" and r :: "32 word"
  shows "(op_shl a r = Inl Panic \<longleftrightarrow> unat r \<ge> BITS a)
       \<and> (op_shr a r = Inl Panic \<longleftrightarrow> unat r \<ge> BITS a)
       \<and> (unat r < BITS a \<longrightarrow>
            op_shl a r = Inr (push_bit (unat r) a) \<and> op_shr a r = Inr (drop_bit (unat r) a))
       \<and> op_shl a r \<noteq> Inl Undefined \<and> op_shr a r \<noteq> Inl Undefined
       \<and> wrapping_shl a r = Inr (push_bit (unat r mod BITS a) a)
       \<and> wrapping_shr a r = Inr (drop_bit (unat r mod BITS a) a)
       \<and> overflowing_shl a r = Inr (push_bit (unat r mod BITS a) a, unat r \<ge> BITS a)
       \<and> overflowing_shr a r = Inr (drop_bit (unat r mod BITS a) a, unat r \<ge> BITS a)
       \<and> (checked_shl a r = Inr None \<longleftrightarrow> unat r \<ge> BITS a)
       \<and> (checked_shr a r = Inr None \<longleftrightarrow> unat r \<ge> BITS a)"
proof -
  have ops: "op_shl a r = (if unat r < BITS a then Inr (push_bit (unat r) a) else Inl Panic)"
    "op_shr a r = (if unat r < BITS a then Inr (drop_bit (unat r) a) else Inl Panic)"
    by (simp_all add: op_shl_def op_shr_def check_def machine_shl_def machine_shr_def BITS_def)
  have wr: "wrapping_shl a r = Inr (push_bit (unat r mod BITS a) a)"
    "wrapping_shr a r = Inr (drop_bit (unat r mod BITS a) a)"
    by (simp_all add: wrapping_shl_def wrapping_shr_def shl_with_overflow_eq
        shr_with_overflow_eq and_then_def)
  have ov: "overflowing_shl a r = Inr (push_bit (unat r mod BITS a) a, unat r \<ge> BITS a)"
    "overflowing_shr a r = Inr (drop_bit (unat r mod BITS a) a, unat r \<ge> BITS a)"
    by (simp_all add: overflowing_shl_def overflowing_shr_def shl_with_overflow_eq
        shr_with_overflow_eq and_then_def)
  have ch: "checked_shl a r = Inr None \<longleftrightarrow> unat r \<ge> BITS a"
    "checked_shr a r = Inr None \<longleftrightarrow> unat r \<ge> BITS a"
    by (simp_all add: checked_shl_def checked_shr_def shl_with_overflow_eq
        shr_with_overflow_eq and_then_def)
  show ?thesis
    unfolding wr ov ch by (simp add: ops)
qed

theorem shift_overflow_witness:
  "unat (3 :: 32 word) < BITS (5 :: 32 word)
   \<and> op_shl (5 :: 32 word) 3 = Inr 40 \<and> op_shr (40 :: 32 word) 3 = Inr 5
   \<and> op_shl (5 :: 32 word) 32 = Inl Panic
   \<and> wrapping_shl (5 :: 32 word) 33 = Inr 10
   \<and> wrapping_shl (5 :: 32 word) 33 = wrapping_shl (5 :: 32 word) 1
   \<and> overflowing_shl (5 :: 32 word) 33 = Inr (10, True)"
proof -
  have b: "BITS (5 :: 32 word) = 32" "BITS (40 :: 32 word) = 32"
    by (simp_all add: BITS_def word_size)
  show ?thesis
    using shift_overflow [of "5 :: 32 word" 3] shift_overflow [of "40 :: 32 word" 3]
      shift_overflow [of "5 :: 32 word" 32] shift_overflow [of "5 :: 32 word" 33]
      shift_overflow [of "5 :: 32 word" 1]
    by (simp add: b)
qed

lemma sint_MAX: "sint (MAX_PRIMITIVE :: 'a::len word) = 2 ^ (LENGTH('a) - 1) - 1"
proof -
  have "sint (word_of_int (2 ^ (LENGTH('a) - 1) - 1) :: 'a word) = 2 ^ (LENGTH('a) - 1) - 1"
    by (rule sint_word_of_int_fits) simp_all
  then show ?thesis by (simp add: MAX_PRIMITIVE_def)
qed

lemma uint_UMAX: "uint (UMAX_PRIMITIVE :: 'a::len word) = 2 ^ LENGTH('a) - 1"
  by (simp add: UMAX_PRIMITIVE_def unsigned_minus_1_eq_mask mask_eq_exp_minus_1)

lemma from_signed_eq:
  fixes s :: "'s::len word"
  shows "(from_signed s :: error + 'd::len word) =
     (if sint (MIN_PRIMITIVE :: 'd word) \<le> sint s \<and> sint s \<le> sint (MAX_PRIMITIVE :: 'd word)
      then Inr (word_of_int (sint s)) else Inl Panic)"
proof -
  have "sint (MIN_PRIMITIVE :: 's word) \<le> sint s"
    using sint_ge [of s] by (simp add: sint_MIN)
  moreover have "sint s \<le> sint (MAX_PRIMITIVE :: 's word)"
    using sint_lt [of s] by (simp add: sint_MAX)
  ultimately show ?thesis
    unfolding from_signed_def check_if_constexpr_def check_def by auto
qed

lemma umax_cases:
  fixes umax :: "'u::len word"
  assumes "umax = word_of_int (sint (MAX_PRIMITIVE :: 'd::len word))"
  shows "if LENGTH('d) \<le> LENGTH('u)
         then uint umax = 2 ^ (LENGTH('d) - 1) - 1 \<and> umax < UMAX_PRIMITIVE
         else umax = UMAX_PRIMITIVE"
proof (cases "LENGTH('d) \<le> LENGTH('u)")
  case True
  have "LENGTH('d) - 1 < LENGTH('u)"
    using True len_gt_0 [where 'a='d] by linarith
  then have lt: "(2::int) ^ (LENGTH('d) - 1) < 2 ^ LENGTH('u)"
    by (intro power_strict_increasing) simp_all
  then have "(2::int) ^ (LENGTH('d) - 1) - 1 < 2 ^ LENGTH('u)" by linarith
  then have u: "uint umax = 2 ^ (LENGTH('d) - 1) - 1"
    unfolding assms sint_MAX by (intro uint_word_of_int_fits) simp_all
  then have "uint umax < uint (UMAX_PRIMITIVE :: 'u word)"
    using lt by (simp add: uint_UMAX)
  then have "umax < UMAX_PRIMITIVE" by (simp add: word_less_def)
  with u True show ?thesis by simp
next
  case False
  then have "LENGTH('u) \<le> LENGTH('d) - 1" by simp
  then have "(2 :: 'u word) ^ (LENGTH('d) - 1) = 0"
    by (simp add: exp_eq_zero_iff)
  then have "umax = - 1"
    unfolding assms sint_MAX by (simp add: wi_hom_syms)
  with False show ?thesis by (simp add: UMAX_PRIMITIVE_def)
qed

lemma from_unsigned_eq:
  fixes u :: "'u::len word"
  shows "(from_unsigned u :: error + 'd::len word) =
     (if uint u \<le> sint (MAX_PRIMITIVE :: 'd word)
      then Inr (word_of_int (uint u)) else Inl Panic)"
proof -
  define umax :: "'u word" where "umax = word_of_int (sint (MAX_PRIMITIVE :: 'd word))"
  have f: "(from_unsigned u :: error + 'd word) =
      check_if_constexpr (umax < UMAX_PRIMITIVE) (u \<le> umax) (Inr (word_of_int (uint u)))"
    by (simp add: from_unsigned_def umax_def Let_def)
  show ?thesis
  proof (cases "LENGTH('d) \<le> LENGTH('u)")
    case True
    then have "uint umax = sint (MAX_PRIMITIVE :: 'd word)" and "umax < UMAX_PRIMITIVE"
      using umax_cases [OF umax_def] by (simp_all add: sint_MAX)
    then show ?thesis
      unfolding f by (simp add: check_if_constexpr_def check_def word_le_def)
  next
    case False
    then have "umax = UMAX_PRIMITIVE"
      using umax_cases [OF umax_def] by simp
    moreover have "uint u \<le> sint (MAX_PRIMITIVE :: 'd word)"
    proof -
      have "LENGTH('u) \<le> LENGTH('d) - 1" using False by simp
      then have "(2::int) ^ LENGTH('u) \<le> 2 ^ (LENGTH('d) - 1)"
        by (intro power_increasing) simp_all
      moreover have "uint u < 2 ^ LENGTH('u)" by (rule uint_lt2p)
      ultimately show ?thesis unfolding sint_MAX by linarith
    qed
    ultimately show ?thesis
      unfolding f by (simp add: check_if_constexpr_def)
  qed
qed

lemma unsigned_from_signed_eq:
  fixes s :: "'s::len word"
  shows "(unsigned_from_signed s :: error + 'd::len word) =
     (if 0 \<le> sint s \<and> sint s \<le> uint (UMAX_PRIMITIVE :: 'd word)
      then Inr (word_of_int (sint s)) else Inl Panic)"
proof -
  have "sint (MIN_PRIMITIVE :: 's word) < 0"
    by (simp add: sint_MIN)
  moreover have "sint s \<le> sint (MAX_PRIMITIVE :: 's word)"
    using sint_lt [of s] by (simp add: sint_MAX)
  ultimately show ?thesis
    unfolding unsigned_from_signed_def range_checked_def check_if_constexpr_def check_def
      narrow_def
    by auto
qed

lemma unsigned_from_unsigned_eq:
  fixes u :: "'u::len word"
  shows "(unsigned_from_unsigned u :: error + 'd::len word) =
     (if uint u \<le> uint (UMAX_PRIMITIVE :: 'd word)
      then Inr (word_of_int (uint u)) else Inl Panic)"
proof -
  have "uint u \<le> uint (UMAX_PRIMITIVE :: 'u word)"
    using uint_lt2p [of u] by (simp add: uint_UMAX)
  then show ?thesis
    unfolding unsigned_from_unsigned_def range_checked_def check_if_constexpr_def check_def
      narrow_def
    by auto
qed

text \<open>
  C7: \<open>Dest::from(v)\<close> panics exactly when \<open>v\<close> is outside \<open>[Dest::MIN, Dest::MAX]\<close> and
  otherwise returns the destination value equal to \<open>v\<close>, for a signed destination from
  a signed or an unsigned source and for an unsigned destination from either; the checks
  left out at compile time change nothing.
\<close>

theorem from_panics_iff_out_of_range:
  fixes s :: "'s::len word" and u :: "'u::len word"
  shows "(if sint (MIN_PRIMITIVE :: 'd::len word) \<le> sint s \<and> sint s \<le> sint (MAX_PRIMITIVE :: 'd word)
          then \<exists>d :: 'd word. from_signed s = Inr d \<and> sint d = sint s
          else (from_signed s :: error + 'd word) = Inl Panic)
       \<and> (if uint u \<le> sint (MAX_PRIMITIVE :: 'd word)
          then \<exists>d :: 'd word. from_unsigned u = Inr d \<and> sint d = uint u
          else (from_unsigned u :: error + 'd word) = Inl Panic)
       \<and> (if 0 \<le> sint s \<and> sint s \<le> uint (UMAX_PRIMITIVE :: 'd word)
          then \<exists>d :: 'd word. unsigned_from_signed s = Inr d \<and> uint d = sint s
          else (unsigned_from_signed s :: error + 'd word) = Inl Panic)
       \<and> (if uint u \<le> uint (UMAX_PRIMITIVE :: 'd word)
          then \<exists>d :: 'd word. unsigned_from_unsigned u = Inr d \<and> uint d = uint u
          else (unsigned_from_unsigned u :: error + 'd word) = Inl Panic)"
proof -
  have a: "sint (word_of_int (sint s) :: 'd word) = sint s"
    if "sint (MIN_PRIMITIVE :: 'd word) \<le> sint s" "sint s \<le> sint (MAX_PRIMITIVE :: 'd word)"
    using that unfolding sint_MIN sint_MAX by (intro sint_word_of_int_fits) linarith+
  have b: "sint (word_of_int (uint u) :: 'd word) = uint u"
    if "uint u \<le> sint (MAX_PRIMITIVE :: 'd word)"
  proof (rule sint_word_of_int_fits)
    show "uint u < 2 ^ (LENGTH('d) - 1)" using that unfolding sint_MAX by linarith
    have "(0::int) \<le> 2 ^ (LENGTH('d) - 1)" by simp
    then show "- (2 ^ (LENGTH('d) - 1)) \<le> uint u" using uint_ge_0 [of u] by linarith
  qed
  have c: "uint (word_of_int (sint s) :: 'd word) = sint s"
    if "0 \<le> sint s" "sint s \<le> uint (UMAX_PRIMITIVE :: 'd word)"
    using that unfolding uint_UMAX by (intro uint_word_of_int_fits) linarith+
  have d: "uint (word_of_int (uint u) :: 'd word) = uint u"
    if "uint u \<le> uint (UMAX_PRIMITIVE :: 'd word)"
    using that unfolding uint_UMAX by (intro uint_word_of_int_fits) simp_all
  show ?thesis
    unfolding from_signed_eq from_unsigned_eq unsigned_from_signed_eq unsigned_from_unsigned_eq
    using a b c d by simp
qed

theorem from_panics_iff_out_of_range_witness:
  "(from_signed (200 :: 16 word) :: error + 8 word) = Inl Panic
   \<and> (from_unsigned (255 :: 8 word) :: error + 8 word) = Inl Panic
   \<and> (\<exists>d :: 8 word. unsigned_from_signed (200 :: 16 word) = Inr d \<and> uint d = 200)
   \<and> (\<exists>d :: 32 word. from_signed (- 5 :: 8 word) = Inr d \<and> sint d = - 5)
   \<and> (\<exists>d :: 32 word. from_unsigned (255 :: 8 word) = Inr d \<and> sint d = 255)
   \<and> (unsigned_from_signed (- 5 :: 8 word) :: error + 32 word) = Inl Panic
   \<and> (\<exists>d :: 32 word. unsigned_from_unsigned (255 :: 8 word) = Inr d \<and> uint d = 255)"
  using from_panics_iff_out_of_range [where 'd = 8 and s = "200 :: 16 word" and u = "255 :: 8 word"]
    from_panics_iff_out_of_range [where 'd = 32 and s = "- 5 :: 8 word" and u = "255 :: 8 word"]
  by (simp add: sint_MIN sint_MAX uint_UMAX)

lemma smod_neg_imp:
  fixes x y :: int
  assumes "x smod y < 0"
  shows "x < 0"
proof (rule ccontr)
  assume "\<not> x < 0"
  then have "0 \<le> sgn x * (\<bar>x\<bar> mod \<bar>y\<bar>)" by (simp add: sgn_if mod_int_pos_iff)
  with assms show False by (simp add: signed_modulo_int_def)
qed

lemma sdiv_sign:
  fixes x y :: int
  assumes "x < 0"
  shows "0 < y \<Longrightarrow> x sdiv y \<le> 0" and "y < 0 \<Longrightarrow> 0 \<le> x sdiv y"
  using assms
  by (simp_all add: signed_divide_int_def sgn_if pos_imp_zdiv_nonneg_iff
      neg_imp_zdiv_nonneg_iff)

lemma euclid_int:
  fixes x y :: int
  assumes y: "y \<noteq> 0"
  defines "q0 \<equiv> x sdiv y" and "r0 \<equiv> x smod y"
  defines "q \<equiv> (if r0 \<ge> 0 then q0 else if y > 0 then q0 - 1 else q0 + 1)"
  defines "r \<equiv> (if r0 < 0 then (if y < 0 then r0 - y else r0 + y) else r0)"
  shows "x = q * y + r" and "0 \<le> r" and "r < \<bar>y\<bar>"
    and "r0 < 0 \<Longrightarrow> 0 < y \<Longrightarrow> x \<le> q \<and> q \<le> 0"
    and "r0 < 0 \<Longrightarrow> y < 0 \<Longrightarrow> 0 \<le> q \<and> 2 * q \<le> 1 - x \<and> y \<le> - 2"
proof -
  have e: "q0 * y + r0 = x"
    unfolding q0_def r0_def by (rule sdiv_mult_smod_eq)
  have rng: "- \<bar>y\<bar> + 1 \<le> r0" "r0 \<le> \<bar>y\<bar> - 1"
    using smod_int_range [OF y, of x] unfolding r0_def by simp_all
  show "x = q * y + r"
    using e unfolding q_def r_def by (auto simp: algebra_simps)
  show "0 \<le> r" using rng unfolding r_def by auto
  show "r < \<bar>y\<bar>" using rng unfolding r_def by auto
  show "x \<le> q \<and> q \<le> 0" if n: "r0 < 0" and p: "0 < y"
  proof -
    have "x < 0" using n unfolding r0_def by (rule smod_neg_imp)
    then have q0: "q0 \<le> 0" unfolding q0_def using p by (rule sdiv_sign)
    have "1 \<le> y" using p by simp
    then have "q0 * y \<le> q0 * 1" using q0 by (intro mult_left_mono_neg) simp_all
    then have "x \<le> q0 - 1" using e n by linarith
    then show ?thesis using q0 n p unfolding q_def by simp
  qed
  show "0 \<le> q \<and> 2 * q \<le> 1 - x \<and> y \<le> - 2" if n: "r0 < 0" and p: "y < 0"
  proof -
    have "x < 0" using n unfolding r0_def by (rule smod_neg_imp)
    then have q0: "0 \<le> q0" unfolding q0_def using p by (rule sdiv_sign)
    have y2: "y \<le> - 2" using n p rng by auto
    then have "q0 * y \<le> q0 * (- 2)" using q0 by (intro mult_left_mono) simp_all
    then have "2 * q0 + 1 \<le> - x" using e n by linarith
    then show ?thesis using q0 n p y2 unfolding q_def by simp
  qed
qed

lemma euclid_fits:
  fixes a b :: "'a::len word"
  assumes b: "b \<noteq> 0" and ov: "\<not> (a = MIN_PRIMITIVE \<and> b = - 1)"
  shows "\<exists>q r. private_div_euclid a b = Inr q \<and> private_rem_euclid a b = Inr r
            \<and> sint a = sint q * sint b + sint r \<and> 0 \<le> sint r \<and> sint r < \<bar>sint b\<bar>"
proof -
  define M :: int where "M = 2 ^ (LENGTH('a) - 1)"
  define x y where "x = sint a" and "y = sint b"
  define q0 r0 where "q0 = x sdiv y" and "r0 = x smod y"
  define q where "q = (if r0 \<ge> 0 then q0 else if y > 0 then q0 - 1 else q0 + 1)"
  define r where "r = (if r0 < 0 then (if y < 0 then r0 - y else r0 + y) else r0)"
  have y0: "y \<noteq> 0" using b by (simp add: y_def sint_eq_0_iff)
  have xr: "- M \<le> x" "x < M" and yr: "- M \<le> y" "y < M"
    unfolding M_def x_def y_def by (rule sint_ge sint_lt)+
  have q0r: "- M \<le> q0" "q0 < M"
    using sdiv_in_range [OF b ov] unfolding M_def q0_def x_def y_def by simp_all
  have r0r: "- M \<le> r0" "r0 < M"
    using smod_in_range [OF b, of a] unfolding M_def r0_def x_def y_def by simp_all
  note E = euclid_int [OF y0, of x, folded q0_def r0_def, folded q_def r_def]
  have rr: "- M \<le> r" "r < M" using E(2,3) yr by linarith+
  have qr: "- M \<le> q \<and> q < M"
  proof (cases "r0 \<ge> 0")
    case True
    then show ?thesis using q0r by (simp add: q_def)
  next
    case neg: False
    show ?thesis
    proof (cases "0 < y")
      case True
      then show ?thesis using E(4) neg xr by linarith
    next
      case False
      then have "y < 0" using y0 by simp
      then have "0 \<le> q \<and> 2 * q \<le> 1 - x \<and> y \<le> - 2" using E(5) neg by simp
      then show ?thesis using xr yr by linarith
    qed
  qed
  have fit: "arith_result (promoted_bits a) v = Inr v" if "- M \<le> v" "v < M" for v
    using that unfolding M_def by (rule promoted_fits)
  have sfit: "sint (word_of_int v :: 'a word) = v" if "- M \<le> v" "v < M" for v
    using that unfolding M_def by (rule sint_word_of_int_fits)
  have pd: "prim_div (promoted_bits a) x y = Inr q0"
    using y0 fit [OF q0r] by (simp add: prim_div_def q0_def)
  have pr: "prim_rem (promoted_bits a) x y = Inr r0"
    using y0 fit [OF q0r] by (simp add: prim_rem_def q0_def r0_def)
  have "arith_result (promoted_bits a) q = Inr q" using qr by (intro fit) simp_all
  then have d: "private_div_euclid a b = Inr (word_of_int q)"
    unfolding private_div_euclid_def x_def [symmetric] y_def [symmetric] pd pr
    by (auto simp: and_then_def narrow_def prim_sub_def prim_add_def q_def split: if_splits)
  have "arith_result (promoted_bits a) r = Inr r" using rr by (intro fit)
  then have m: "private_rem_euclid a b = Inr (word_of_int r)"
    unfolding private_rem_euclid_def x_def [symmetric] y_def [symmetric] pr
    by (auto simp: and_then_def narrow_def prim_sub_def prim_add_def r_def split: if_splits)
  have "sint (word_of_int q :: 'a word) = q" using qr by (intro sfit) simp_all
  moreover have "sint (word_of_int r :: 'a word) = r" using rr by (intro sfit)
  ultimately show ?thesis
    using d m E(1,2,3) unfolding x_def y_def by auto
qed

text \<open>
  C6: unless \<open>b == 0\<close> or (\<open>a == MIN\<close> and \<open>b == -1\<close>), \<open>q = div_euclid(a, b)\<close> and
  \<open>r = rem_euclid(a, b)\<close> satisfy \<open>a == q * b + r\<close> and \<open>0 <= r < |b|\<close>; both panic
  exactly in the two excluded cases.
\<close>

theorem euclid_division:
  fixes a b :: "'a::len word"
  shows "(div_euclid a b = Inl Panic \<longleftrightarrow> b = 0 \<or> (a = MIN_PRIMITIVE \<and> b = - 1))
       \<and> (rem_euclid a b = Inl Panic \<longleftrightarrow> b = 0 \<or> (a = MIN_PRIMITIVE \<and> b = - 1))
       \<and> (b \<noteq> 0 \<and> \<not> (a = MIN_PRIMITIVE \<and> b = - 1) \<longrightarrow>
            (\<exists>q r. div_euclid a b = Inr q \<and> rem_euclid a b = Inr r
                 \<and> sint a = sint q * sint b + sint r \<and> 0 \<le> sint r \<and> sint r < \<bar>sint b\<bar>))"
proof (cases "b = 0 \<or> (a = MIN_PRIMITIVE \<and> b = - 1)")
  case True
  then show ?thesis
    by (auto simp: div_euclid_def rem_euclid_def check_def div_overflows_def)
next
  case False
  then have b: "b \<noteq> 0" and ov: "\<not> (a = MIN_PRIMITIVE \<and> b = - 1)" by simp_all
  obtain q r where "private_div_euclid a b = Inr q" "private_rem_euclid a b = Inr r"
    "sint a = sint q * sint b + sint r" "0 \<le> sint r" "sint r < \<bar>sint b\<bar>"
    using euclid_fits [OF b ov] by blast
  then show ?thesis
    using False by (auto simp: div_euclid_def rem_euclid_def check_def div_overflows_def)
qed

theorem euclid_division_witness:
  "(3 :: 8 word) \<noteq> 0 \<and> \<not> ((- 7 :: 8 word) = MIN_PRIMITIVE \<and> (3 :: 8 word) = - 1)
   \<and> (\<exists>q r. div_euclid (- 7 :: 8 word) 3 = Inr q \<and> rem_euclid (- 7 :: 8 word) 3 = Inr r
          \<and> - 7 = sint q * 3 + sint r \<and> 0 \<le> sint r \<and> sint r < 3)
   \<and> div_euclid (MIN_PRIMITIVE :: 8 word) (- 1) = Inl Panic
   \<and> rem_euclid (5 :: 8 word) 0 = Inl Panic"
proof -
  have ne: "(- 7 :: 8 word) \<noteq> MIN_PRIMITIVE" "(3 :: 8 word) \<noteq> 0"
    by (simp_all add: MIN_PRIMITIVE_def)
  show ?thesis
    using ne euclid_division [of "- 7 :: 8 word" 3]
      euclid_division [of "MIN_PRIMITIVE :: 8 word" "- 1"]
      euclid_division [of "5 :: 8 word" 0]
    by simp
qed

text \<open>
  C8: \<open>clamp(min, max)\<close> panics exactly when \<open>min > max\<close> or a bound is NaN. With valid
  bounds it returns \<open>max\<close> if \<open>x > max\<close>, \<open>min\<close> if \<open>x < min\<close> and \<open>x\<close> otherwise, and
  a NaN \<open>x\<close> comes back as it is.
\<close>

theorem clamp_panics_or_clamps:
  fixes x min_v max_v :: "'a::len word"
  shows "(clamp x min_v max_v = Inl Panic \<longleftrightarrow>
            float_gt min_v max_v \<or> is_nan min_v \<or> is_nan max_v)
       \<and> (\<not> (float_gt min_v max_v \<or> is_nan min_v \<or> is_nan max_v) \<longrightarrow>
            (float_gt x max_v \<longrightarrow> clamp x min_v max_v = Inr max_v)
          \<and> (float_lt x min_v \<longrightarrow> clamp x min_v max_v = Inr min_v)
          \<and> (\<not> float_gt x max_v \<and> \<not> float_lt x min_v \<longrightarrow> clamp x min_v max_v = Inr x)
          \<and> (is_nan x \<longrightarrow> clamp x min_v max_v = Inr x \<and> \<not> float_gt x max_v \<and> \<not> float_lt x min_v))"
  unfolding clamp_def check_def float_clamp_def is_nan_def float_gt_def float_lt_def float_le_def
  by auto

theorem clamp_panics_or_clamps_witness:
  "\<not> (float_gt (0x3F800000 :: 32 word) 0x41200000 \<or> is_nan (0x3F800000 :: 32 word)
        \<or> is_nan (0x41200000 :: 32 word))
   \<and> \<not> float_gt (0x40A00000 :: 32 word) 0x41200000 \<and> \<not> float_lt (0x40A00000 :: 32 word) 0x3F800000
   \<and> clamp (0x40A00000 :: 32 word) 0x3F800000 0x41200000 = Inr 0x40A00000
   \<and> float_gt (0x41A00000 :: 32 word) 0x41200000
   \<and> clamp (0x41A00000 :: 32 word) 0x3F800000 0x41200000 = Inr 0x41200000
   \<and> float_lt (0xBF800000 :: 32 word) 0x3F800000
   \<and> clamp (0xBF800000 :: 32 word) 0x3F800000 0x41200000 = Inr 0x3F800000
   \<and> is_nan (0x7FC00000 :: 32 word)
   \<and> clamp (0x7FC00000 :: 32 word) 0x3F800000 0x41200000 = Inr 0x7FC00000
   \<and> float_gt (0x41200000 :: 32 word) 0x3F800000
   \<and> clamp (0x40A00000 :: 32 word) 0x41200000 0x3F800000 = Inl Panic
   \<and> clamp (0x40A00000 :: 32 word) 0x7FC00000 0x41200000 = Inl Panic"
proof -
  have facts:
    "\<not> is_nan (0x3F800000 :: 32 word)" "\<not> is_nan (0x41200000 :: 32 word)"
    "is_nan (0x7FC00000 :: 32 word)"
    "\<not> float_gt (0x3F800000 :: 32 word) 0x41200000"
    "\<not> float_gt (0x40A00000 :: 32 word) 0x41200000"
    "\<not> float_lt (0x40A00000 :: 32 word) 0x3F800000"
    "float_gt (0x41A00000 :: 32 word) 0x41200000"
    "float_lt (0xBF800000 :: 32 word) 0x3F800000"
    "float_gt (0x41200000 :: 32 word) 0x3F800000"
    by (simp_all add: is_nan_def float_gt_def float_lt_def float_is_nan_def float_magnitude_def
        infinity_magnitude_def frac_bits_def float_key_def float_signbit_def word_size)
  show ?thesis
    using facts
      clamp_panics_or_clamps [where min_v = "0x3F800000" and max_v = "0x41200000" and x = "0x40A00000 :: 32 word"]
      clamp_panics_or_clamps [where min_v = "0x3F800000" and max_v = "0x41200000" and x = "0x41A00000 :: 32 word"]
      clamp_panics_or_clamps [where min_v = "0x3F800000" and max_v = "0x41200000" and x = "0xBF800000 :: 32 word"]
      clamp_panics_or_clamps [where min_v = "0x3F800000" and max_v = "0x41200000" and x = "0x7FC00000 :: 32 word"]
      clamp_panics_or_clamps [where min_v = "0x41200000" and max_v = "0x3F800000" and x = "0x40A00000 :: 32 word"]
      clamp_panics_or_clamps [where min_v = "0x7FC00000" and max_v = "0x41200000" and x = "0x40A00000 :: 32 word"]
    by simp
qed

lemma float_is_nan_NAN_f32: "float_is_nan (NAN :: 32 word)"
  by (simp add: float_is_nan_def float_magnitude_def infinity_magnitude_def
      frac_bits_def exp_bits_def NAN_def word_size mask_eq_exp_minus_1)

lemma asinh_delegates:
  "\<not> float_lt x float_minus_one \<Longrightarrow> asinh std_asinh x = std_asinh x"
  by (simp add: asinh_def)

text \<open>
  C9: \<open>asinh\<close> is claimed to delegate to the standard function for every finite input,
  below \<open>-1\<close> too. At \<open>-2.0\<close> (the binary32 pattern \<open>0xC0000000\<close>) the method returns
  \<open>NAN\<close> without calling the standard function, whatever that function is.
\<close>

theorem asinh_minus_two_is_nan:
  "asinh std_asinh (0xC0000000 :: 32 word) = NAN
   \<and> float_is_nan (asinh std_asinh (0xC0000000 :: 32 word))
   \<and> \<not> float_is_nan (0xC0000000 :: 32 word)"
proof -
  have "asinh std_asinh (0xC0000000 :: 32 word) = NAN"
    by (simp add: asinh_def float_lt_def float_is_nan_def float_magnitude_def
        infinity_magnitude_def frac_bits_def exp_bits_def float_key_def float_signbit_def
        float_minus_one_def word_size)
  moreover have "\<not> float_is_nan (0xC0000000 :: 32 word)"
    by (simp add: float_is_nan_def float_magnitude_def infinity_magnitude_def frac_bits_def
        word_size)
  ultimately show ?thesis using float_is_nan_NAN_f32 by simp
qed

lemma bytes_recompose:
  fixes v :: "'a::len word"
  assumes "k \<le> n"
  shows "foldr (\<lambda>b acc. ucast b OR push_bit 8 acc)
           (map (\<lambda>i. ucast (drop_bit (8 * i) v) :: 8 word) [k..<n]) (0 :: 'a word)
         = take_bit (8 * (n - k)) (drop_bit (8 * k) v)"
  using assms
proof (induction k rule: inc_induct)
  case base
  then show ?case by simp
next
  case (step k)
  have "ucast (ucast (drop_bit (8 * k) v) :: 8 word)
          OR push_bit 8 (take_bit (8 * (n - Suc k)) (drop_bit (8 * Suc k) v))
        = take_bit (8 * (n - k)) (drop_bit (8 * k) v)"
  proof (rule bit_word_eqI)
    fix j
    assume "j < LENGTH('a)"
    show "bit (ucast (ucast (drop_bit (8 * k) v) :: 8 word)
            OR push_bit 8 (take_bit (8 * (n - Suc k)) (drop_bit (8 * Suc k) v))) j
          = bit (take_bit (8 * (n - k)) (drop_bit (8 * k) v)) j"
    proof (cases "j < 8")
      case True
      then show ?thesis using step.hyps \<open>j < LENGTH('a)\<close>
        by (auto simp: bit_simps)
    next
      case False
      then have "j - 8 + 8 * Suc k = j + 8 * k" by simp
      then show ?thesis using False step.hyps \<open>j < LENGTH('a)\<close>
        by (auto simp: bit_simps)
    qed
  qed
  then show ?case using step by (simp add: upt_conv_Cons)
qed

lemma object_round_trip:
  fixes v :: "'a::len word"
  assumes "8 dvd LENGTH('a)"
  shows "object_of_bytes little (object_bytes little v) = v"
proof -
  have "LENGTH('a) \<le> 8 * (sizeof v - 0)"
    using assms by (simp add: sizeof_def word_size)
  then have "take_bit (8 * (sizeof v - 0)) (drop_bit (8 * 0) v) = v"
    by (simp add: take_bit_word_eq_self)
  then show ?thesis
    using bytes_recompose [of 0 "sizeof v" v]
    by (simp add: object_of_bytes_def object_bytes_def Let_def)
qed

lemma run_time_round_trip:
  fixes v :: "'a::len word"
  assumes "8 dvd LENGTH('a)"
  shows "from_ne_bytes False little (to_ne_bytes False little v) = v"
  using object_round_trip [OF assms] by (simp add: from_ne_bytes_def to_ne_bytes_def)

lemma to_ne_bytes_example:
  "to_ne_bytes True True (0x12345678 :: 32 word) = [0x78, 0x56, 0x34, 0x12]
   \<and> to_ne_bytes False True (0x12345678 :: 32 word) = [0x78, 0x56, 0x34, 0x12]
   \<and> to_ne_bytes True False (0x12345678 :: 32 word) = [0x12, 0x34, 0x56, 0x78]
   \<and> to_ne_bytes False False (0x12345678 :: 32 word) = [0x12, 0x34, 0x56, 0x78]"
  by code_simp

lemma bit_recomposed:
  "bit (foldr (\<lambda>b acc. ucast b OR push_bit 8 acc) bs (0 :: 'a::len word)) j
     \<longleftrightarrow> j < LENGTH('a) \<and> j div 8 < length bs \<and> bit (bs ! (j div 8) :: 8 word) (j mod 8)"
proof (induction bs arbitrary: j)
  case Nil
  then show ?case by simp
next
  case (Cons b bs)
  let ?X = "foldr (\<lambda>b acc. ucast b OR push_bit 8 acc) bs (0 :: 'a word)"
  have unfold: "bit (foldr (\<lambda>b acc. ucast b OR push_bit 8 acc) (b # bs) (0 :: 'a word)) j
      \<longleftrightarrow> (j < LENGTH('a) \<and> bit b j) \<or> (8 \<le> j \<and> j < LENGTH('a) \<and> bit ?X (j - 8))"
    by (simp add: bit_or_iff bit_ucast_iff bit_push_bit_iff)
  show ?case
  proof (cases "j < 8")
    case True
    then have "j div 8 = 0" "j mod 8 = j" by simp_all
    then show ?thesis unfolding unfold using True by simp
  next
    case False
    then have a: "(j - 8) div 8 = j div 8 - 1" "(j - 8) mod 8 = j mod 8" "0 < j div 8"
      by (simp_all add: le_div_geq le_mod_geq)
    have nb: "\<not> bit b j" using False bit_imp_le_length [of b j] by auto
    have "j - 8 < LENGTH('a)" if "j < LENGTH('a)" using that by simp
    then show ?thesis
      unfolding unfold Cons.IH [of "j - 8"] a using False a(3) nb
      by (cases "j div 8") auto
  qed
qed
lemma object_bytes_of_bytes:
  fixes bs :: "8 word list"
  assumes "length bs = sizeof (0 :: 'a::len word)" and "8 dvd LENGTH('a)"
  shows "object_bytes True (object_of_bytes True bs :: 'a word) = bs"
proof (rule nth_equalityI)
  show "length (object_bytes True (object_of_bytes True bs :: 'a word)) = length bs"
    using assms by (simp add: object_bytes_def sizeof_def word_size)
next
  fix i
  assume "i < length (object_bytes True (object_of_bytes True bs :: 'a word))"
  then have i: "i < length bs" "i < LENGTH('a) div 8"
    using assms by (simp_all add: object_bytes_def sizeof_def word_size)
  have "(ucast (drop_bit (8 * i) (object_of_bytes True bs :: 'a word)) :: 8 word) = bs ! i"
  proof (rule bit_word_eqI)
    fix j
    assume j: "j < LENGTH(8)"
    then have "8 * i + j < LENGTH('a)" using i(2) assms(2) by (auto elim!: dvdE)
    moreover have "(8 * i + j) div 8 = i" "(8 * i + j) mod 8 = j" using j by simp_all
    ultimately show "bit (ucast (drop_bit (8 * i) (object_of_bytes True bs :: 'a word)) :: 8 word) j
        = bit (bs ! i) j"
      using j i by (simp add: bit_simps object_of_bytes_def bit_recomposed)
  qed
  then show "object_bytes True (object_of_bytes True bs :: 'a word) ! i = bs ! i"
    using i by (simp add: object_bytes_def sizeof_def word_size)
qed

lemma swap_bytes_involution:
  fixes v :: "'a::len word"
  assumes "8 dvd LENGTH('a)"
  shows "swap_bytes (swap_bytes v) = v"
proof -
  have "length (rev (object_bytes True v)) = sizeof (0 :: 'a word)"
    by (simp add: object_bytes_def sizeof_def word_size)
  then have "object_bytes True (object_of_bytes True (rev (object_bytes True v)) :: 'a word)
      = rev (object_bytes True v)"
    using assms by (rule object_bytes_of_bytes)
  then show ?thesis
    using object_round_trip [OF assms, of True v] by (simp add: swap_bytes_def)
qed

lemma run_time_round_trip_be_le:
  fixes v :: "'a::len word"
  assumes "8 dvd LENGTH('a)"
  shows "from_be_bytes False little (to_be_bytes False little v) = v"
    and "from_le_bytes False little (to_le_bytes False little v) = v"
  using run_time_round_trip [OF assms] swap_bytes_involution [OF assms]
  by (simp_all add: from_be_bytes_def to_be_bytes_def from_le_bytes_def to_le_bytes_def
      from_be_def to_be_def from_le_def to_le_def)

text \<open>
  C1: the byte serialization is claimed to round-trip for every signed integer type and
  value. In a constant evaluation \<open>from_ne_bytes\<close> shifts byte \<open>i\<close> by \<open>sizeof(T) - 1 - i\<close>
  bits instead of whole bytes: for the 32-bit value 256 the three round trips return 4
  (2 on a big-endian host), 33554432 and 4.
\<close>

theorem constant_evaluated_round_trip_fails:
  "(from_ne_bytes True True (to_ne_bytes True True (256 :: 32 word)) :: 32 word) = 4
   \<and> (from_ne_bytes True False (to_ne_bytes True False (256 :: 32 word)) :: 32 word) = 2
   \<and> (from_be_bytes True True (to_be_bytes True True (256 :: 32 word)) :: 32 word) = 33554432
   \<and> (from_le_bytes True True (to_le_bytes True True (256 :: 32 word)) :: 32 word) = 4
   \<and> to_ne_bytes True True (256 :: 32 word) = [0, 1, 0, 0]"
  by code_simp

end
